theory Spec2Isabelle
  imports Complex_Main
begin

section \<open>Data model\<close>

text \<open>
  The development embeds the controller logic of the annotation viewer
  (the index module with its gesture handlers, the anchor bookkeeping and the
  session-start restoration) and the module \<^verbatim>\<open>user_text_records.js\<close>.
  Module-level variables become fields of one state record, every call to a
  collaborator is appended to a trace, and a rejected promise or a thrown
  exception is the \<open>Inl\<close> branch of a sum.
\<close>

subsection \<open>Values\<close>

text \<open>A JavaScript error object; only its message is ever read.\<close>

datatype error = Error string

text \<open>
  \<^verbatim>\<open>Vector3\<close> and \<^verbatim>\<open>Quaternion\<close> of the rendering library. The handlers only copy
  them and overwrite one component, no arithmetic is done on the components.
\<close>

datatype Vector3 = Vector3 (vec_x: real) (vec_y: real) (vec_z: real)

datatype Quaternion = Quaternion (quat_x: real) (quat_y: real) (quat_z: real) (quat_w: real)

text \<open>\<^verbatim>\<open>new Quaternion()\<close> is the identity rotation.\<close>

definition new_Quaternion :: Quaternion where
  "new_Quaternion = Quaternion 0 0 0 1"

text \<open>The object literal \<^verbatim>\<open>{ position, quaternion }\<close> stored in \<^verbatim>\<open>pendingAnchorData\<close>.\<close>

record pendingAnchor =
  position :: Vector3
  quaternion :: Quaternion

text \<open>A record of the remote text store, \<^verbatim>\<open>{ username, text }\<close>.\<close>

record userTextRecord =
  rec_username :: string
  rec_text :: string

text \<open>
  An annotation object, as far as the handlers read it: its \<^verbatim>\<open>username\<close> and its
  \<^verbatim>\<open>state\<close>, a JavaScript string compared with \<^verbatim>\<open>===\<close>.
\<close>

record annotationObject =
  ao_username :: string
  ao_state :: string

text \<open>
  Nodes of the scene graph. Anchors, marker meshes and annotation objects are
  JavaScript objects; they are identified by a number.
\<close>

datatype node = Scene | RatkRoot | AnchorN nat | MeshN nat

text \<open>
  A raycaster hit. \<^verbatim>\<open>hit.object\<close> may be missing, and the object it names may or
  may not carry an \<^verbatim>\<open>annotationObject\<close> property (a reference to an annotation
  object).
\<close>

datatype object3D = Object3D (annotationObjectRef: "nat option")

datatype hit = Hit (hit_object: "object3D option")

subsection \<open>Collaborator calls\<close>

text \<open>
  Every call that leaves the modelled code: the cloud module, the tracking
  library, the annotation-object loader and the creation workflow.
\<close>

datatype call =
    FetchAllTextFiles
  | CreateAnchor Vector3 Quaternion bool
  | DeleteAnchor nat
  | RestorePersistentAnchors
  | LoadAnnotationObjects nat
  | StartCreatingAnnotationObject "nat option" "nat option"

subsection \<open>State\<close>

text \<open>
  \<^item> \<open>pendingAnchorData\<close>, \<open>primaryAnchor\<close>, \<open>primaryAnchorMesh\<close>: the module variables
    of the index module (\<open>None\<close> is \<^verbatim>\<open>null\<close>);
  \<^item> \<open>userTextRecords\<close>: the module constant of \<^verbatim>\<open>user_text_records.js\<close>;
  \<^item> \<open>cameraPosition\<close>: \<^verbatim>\<open>camera.position\<close>;
  \<^item> \<open>parent\<close>: the scene graph, every node with the node it is attached to;
  \<^item> \<open>meshColor\<close>, \<open>nextMesh\<close>: the material colour of every marker mesh created so
    far and the identity of the next \<^verbatim>\<open>new Mesh\<close>;
  \<^item> \<open>annotationObjects\<close>: the annotation objects, by reference;
  \<^item> \<open>uiToolbarChildren\<close>: the text meshes under \<^verbatim>\<open>uiToolbar\<close>, each with its text
    (\<open>None\<close> when the text is \<^verbatim>\<open>null\<close>);
  \<^item> \<open>ratk_anchors\<close>, \<open>ratk_isPersistent\<close>: the anchor set of the tracking library,
    in insertion order, and the \<^verbatim>\<open>isPersistent\<close> flag of each anchor;
  \<^item> \<open>calls\<close>: the collaborator calls made so far, oldest first;
  \<^item> \<open>consoleErrors\<close>: what was written with \<^verbatim>\<open>console.error\<close> (the
    \<^verbatim>\<open>console.log\<close> debugging output is not modelled);
  \<^item> \<open>unhandledRejections\<close>: promises that rejected with no handler attached.
\<close>

record app =
  pendingAnchorData :: "pendingAnchor option"
  primaryAnchor :: "nat option"
  primaryAnchorMesh :: "nat option"
  userTextRecords :: "userTextRecord list"
  cameraPosition :: Vector3
  parent :: "node \<Rightarrow> node option"
  meshColor :: "nat \<Rightarrow> nat"
  nextMesh :: nat
  annotationObjects :: "nat \<Rightarrow> annotationObject"
  uiToolbarChildren :: "string option list"
  ratk_anchors :: "nat list"
  ratk_isPersistent :: "nat \<Rightarrow> bool"
  calls :: "call list"
  consoleErrors :: "string list"
  unhandledRejections :: "error list"

text \<open>
  The state after \<^verbatim>\<open>init()\<close>: no anchor, no pending request, an empty text
  cache, the camera at \<^verbatim>\<open>(0, 1.6, 3)\<close>, the root of the tracking library attached to
  the scene and an empty toolbar.
\<close>

definition init_app :: app where
  "init_app = \<lparr>
     pendingAnchorData = None,
     primaryAnchor = None,
     primaryAnchorMesh = None,
     userTextRecords = [],
     cameraPosition = Vector3 0 (16 / 10) 3,
     parent = (\<lambda>n. if n = RatkRoot then Some Scene else None),
     meshColor = (\<lambda>_. 0),
     nextMesh = 0,
     annotationObjects = (\<lambda>_. \<lparr>ao_username = [], ao_state = []\<rparr>),
     uiToolbarChildren = [],
     ratk_anchors = [],
     ratk_isPersistent = (\<lambda>_. False),
     calls = [],
     consoleErrors = [],
     unhandledRejections = []
   \<rparr>"

section \<open>The text cache (\<^verbatim>\<open>user_text_records.js\<close>)\<close>

text \<open>
  \<^verbatim>\<open>fetchAllTextFiles\<close> lives in the cloud module; its outcome is a parameter: the
  promise rejects with an error or resolves to the list of records.

  \<^verbatim>\<open>updateUserTextRecords\<close> awaits the fetch and prints the result. It assigns
  nothing: \<open>userTextRecords\<close> is left as it was.
\<close>

definition updateUserTextRecords ::
  "(error + userTextRecord list) \<Rightarrow> app \<Rightarrow> (error + unit) \<times> app" where
  "updateUserTextRecords fetch s =
     (let s1 = s\<lparr>calls := calls s @ [FetchAllTextFiles]\<rparr>
      in case fetch of
           Inl e \<Rightarrow> (Inl e, s1)
         | Inr textRecords \<Rightarrow> (Inr (), s1))"

text \<open>\<^verbatim>\<open>Array.prototype.findIndex\<close>: the first index whose element passes, or \<open>-1\<close>.\<close>

fun findIndex :: "('a \<Rightarrow> bool) \<Rightarrow> 'a list \<Rightarrow> int" where
  "findIndex p [] = -1"
| "findIndex p (r # rs) =
     (if p r then 0
      else (let i = findIndex p rs in if i = -1 then -1 else i + 1))"

text \<open>\<^verbatim>\<open>array.splice(index, 1)\<close> for an index the caller found in the array.\<close>

definition splice1 :: "int \<Rightarrow> 'a list \<Rightarrow> 'a list" where
  "splice1 i rs = take (nat i) rs @ drop (nat i + 1) rs"

definition removeUserTextRecord ::
  "(error + userTextRecord list) \<Rightarrow> string \<Rightarrow> app \<Rightarrow> (error + unit) \<times> app" where
  "removeUserTextRecord fetch uname s =
     (let (r, s1) = (if length (userTextRecords s) = 0
                     then updateUserTextRecords fetch s
                     else (Inr (), s))
      in case r of
           Inl e \<Rightarrow> (Inl e, s1)
         | Inr _ \<Rightarrow>
             (let index = findIndex (\<lambda>record. rec_username record = uname) (userTextRecords s1)
              in if index = -1 then (Inr (), s1)
                 else (Inr (), s1\<lparr>userTextRecords := splice1 index (userTextRecords s1)\<rparr>)))"

text \<open>
  \<^verbatim>\<open>getUserText\<close>: \<open>Inr None\<close> is the returned \<^verbatim>\<open>null\<close>, \<open>Inr (Some t)\<close> the text of
  the first record of that user (\<^verbatim>\<open>Array.prototype.find\<close>).
\<close>

definition getUserText ::
  "(error + userTextRecord list) \<Rightarrow> string \<Rightarrow> app \<Rightarrow> (error + string option) \<times> app" where
  "getUserText fetch uname s =
     (let (r, s1) = (if length (userTextRecords s) = 0
                     then updateUserTextRecords fetch s
                     else (Inr (), s))
      in case r of
           Inl e \<Rightarrow> (Inl e, s1)
         | Inr _ \<Rightarrow>
             (case find (\<lambda>record. rec_username record = uname) (userTextRecords s1) of
                None \<Rightarrow> (Inr None, s1)
              | Some record \<Rightarrow> (Inr (Some (rec_text record)), s1)))"

text \<open>The number of bulk fetches in a trace.\<close>

definition fetchCount :: "app \<Rightarrow> nat" where
  "fetchCount s = length (filter (\<lambda>c. c = FetchAllTextFiles) (calls s))"

section \<open>The scene graph\<close>

text \<open>
  \<^verbatim>\<open>Object3D.add\<close> and \<^verbatim>\<open>Object3D.remove\<close> of the rendering library, on the tree
  of nodes: \<^verbatim>\<open>p.add(c)\<close> takes \<open>c\<close> away from the node it was attached to and
  attaches it to \<open>p\<close>; \<^verbatim>\<open>p.remove(c)\<close> detaches \<open>c\<close> when it is a child of \<open>p\<close> and
  does nothing otherwise.
\<close>

definition object_add :: "node \<Rightarrow> node \<Rightarrow> app \<Rightarrow> app" where
  "object_add p c s = s\<lparr>parent := (parent s)(c \<mapsto> p)\<rparr>"

definition object_remove :: "node \<Rightarrow> node \<Rightarrow> app \<Rightarrow> app" where
  "object_remove p c s =
     (if parent s c = Some p then s\<lparr>parent := (parent s)(c := None)\<rparr> else s)"

text \<open>\<^verbatim>\<open>scene.remove(primaryAnchorMesh)\<close>, where the variable may still be \<^verbatim>\<open>null\<close>.\<close>

definition scene_remove_mesh :: "nat option \<Rightarrow> app \<Rightarrow> app" where
  "scene_remove_mesh m s = (case m of None \<Rightarrow> s | Some k \<Rightarrow> object_remove Scene (MeshN k) s)"

section \<open>Anchors (index module)\<close>

text \<open>
  Modelled from the spec: \<^verbatim>\<open>loadAnnotationObjects(scene, anchor)\<close> belongs to a
  module that is not part of the sources at hand; the specification has
  \<^verbatim>\<open>setPrimary\<close> "trigger loading of that anchor's annotation objects". The call
  is recorded.
\<close>

definition loadAnnotationObjects :: "nat \<Rightarrow> app \<Rightarrow> app" where
  "loadAnnotationObjects anchor s = s\<lparr>calls := calls s @ [LoadAnnotationObjects anchor]\<rparr>"

text \<open>
  \<^verbatim>\<open>buildAnchorMarker\<close>: a new mesh with the colour of the flag becomes
  \<open>primaryAnchorMesh\<close>, is attached to the anchor, and the anchor to the scene.
\<close>

definition markerColor :: "bool \<Rightarrow> nat" where
  "markerColor isRecovered = (if isRecovered then 0xff0000 else 0x00ff00)"

definition buildAnchorMarker :: "nat \<Rightarrow> bool \<Rightarrow> app \<Rightarrow> app" where
  "buildAnchorMarker anchor isRecovered s =
     (let m = nextMesh s;
          s1 = s\<lparr>nextMesh := m + 1,
                 meshColor := (meshColor s)(m := markerColor isRecovered),
                 primaryAnchorMesh := Some m\<rparr>;
          s2 = object_add (AnchorN anchor) (MeshN m) s1
      in object_add Scene (AnchorN anchor) s2)"

definition setPrimaryAnchor :: "nat \<Rightarrow> bool \<Rightarrow> app \<Rightarrow> app" where
  "setPrimaryAnchor anchor isRecovered s =
     (let s1 = (case primaryAnchor s of
                  None \<Rightarrow> s
                | Some old \<Rightarrow>
                    scene_remove_mesh (primaryAnchorMesh s) (object_remove Scene (AnchorN old) s));
          s2 = s1\<lparr>primaryAnchor := Some anchor\<rparr>;
          s3 = buildAnchorMarker anchor isRecovered s2
      in loadAnnotationObjects anchor s3)"

text \<open>A sequence of \<^verbatim>\<open>setPrimaryAnchor\<close> calls, first call first.\<close>

fun setPrimaryAnchor_calls :: "(nat \<times> bool) list \<Rightarrow> app \<Rightarrow> app" where
  "setPrimaryAnchor_calls [] s = s"
| "setPrimaryAnchor_calls ((anchor, isRecovered) # cs) s =
     setPrimaryAnchor_calls cs (setPrimaryAnchor anchor isRecovered s)"

text \<open>
  \<^verbatim>\<open>handlePendingAnchors\<close>, run by every frame: a pending request is handed to
  \<^verbatim>\<open>ratk.createAnchor\<close> with the persistence flag \<^verbatim>\<open>true\<close> and the slot is cleared
  in the same tick. The \<^verbatim>\<open>then\<close> callback runs later, when the tracking library
  delivers the anchor.
\<close>

definition handlePendingAnchors :: "app \<Rightarrow> app" where
  "handlePendingAnchors s =
     (case pendingAnchorData s of
        None \<Rightarrow> s
      | Some pending \<Rightarrow>
          s\<lparr>calls := calls s @ [CreateAnchor (position pending) (quaternion pending) True],
            pendingAnchorData := None\<rparr>)"

definition handlePendingAnchors_then :: "nat \<Rightarrow> app \<Rightarrow> app" where
  "handlePendingAnchors_then anchor s = setPrimaryAnchor anchor False s"

text \<open>The \<^verbatim>\<open>createAnchor\<close> calls of a trace, oldest first.\<close>

definition createAnchorCalls :: "app \<Rightarrow> call list" where
  "createAnchorCalls s =
     filter (\<lambda>c. case c of CreateAnchor _ _ _ \<Rightarrow> True | _ \<Rightarrow> False) (calls s)"

subsection \<open>The squeeze gesture\<close>

text \<open>
  The tracking library: \<^verbatim>\<open>ratk.persistentAnchors\<close> are the anchors of its set that
  are persistent, and a \<^verbatim>\<open>deleteAnchor\<close> that resolves has taken the anchor out of
  the set. Whether a delete resolves or rejects is a parameter, \<open>del\<close>.
\<close>

definition persistentAnchors :: "app \<Rightarrow> nat list" where
  "persistentAnchors s = filter (ratk_isPersistent s) (ratk_anchors s)"

definition ratk_deleteAnchor :: "nat \<Rightarrow> app \<Rightarrow> app" where
  "ratk_deleteAnchor anchor s = s\<lparr>ratk_anchors := removeAll anchor (ratk_anchors s)\<rparr>"

text \<open>
  The \<^verbatim>\<open>for ... of\<close> loop of \<^verbatim>\<open>handleSqueezeStart\<close>: one awaited delete after the
  other; a rejected delete leaves the loop and the handler.
\<close>

fun deleteAnchors :: "(nat \<Rightarrow> error option) \<Rightarrow> nat list \<Rightarrow> app \<Rightarrow> (error + unit) \<times> app" where
  "deleteAnchors del [] s = (Inr (), s)"
| "deleteAnchors del (anchor # rest) s =
     (let s1 = s\<lparr>calls := calls s @ [DeleteAnchor anchor]\<rparr>
      in case del anchor of
           Some e \<Rightarrow> (Inl e, s1)
         | None \<Rightarrow> deleteAnchors del rest (ratk_deleteAnchor anchor s1))"

definition handleSqueezeStart :: "(nat \<Rightarrow> error option) \<Rightarrow> app \<Rightarrow> (error + unit) \<times> app" where
  "handleSqueezeStart del s =
     (case deleteAnchors del (persistentAnchors s) s of
        (Inl e, s1) \<Rightarrow> (Inl e, s1)
      | (Inr _, s1) \<Rightarrow>
          (let positionClone = cameraPosition s1;
               positionClone = Vector3 (vec_x positionClone) 0 (vec_z positionClone)
           in (Inr (), s1\<lparr>pendingAnchorData :=
                 Some \<lparr>position = positionClone, quaternion = new_Quaternion\<rparr>\<rparr>)))"

text \<open>The \<^verbatim>\<open>deleteAnchor\<close> calls of a trace, oldest first.\<close>

definition deleteAnchorCalls :: "app \<Rightarrow> call list" where
  "deleteAnchorCalls s =
     filter (\<lambda>c. case c of DeleteAnchor _ \<Rightarrow> True | _ \<Rightarrow> False) (calls s)"

subsection \<open>Restoration at session start\<close>

text \<open>
  What \<^verbatim>\<open>ratk.restorePersistentAnchors()\<close> does is a parameter: the call throws,
  or it returns a promise that rejects, or one that resolves after the restored
  anchors have joined the anchor set as persistent anchors.
\<close>

datatype restoreOutcome =
    RestoreThrows error
  | RestoreRejects error
  | RestoreResolves "nat list"

definition ratk_restored :: "nat list \<Rightarrow> app \<Rightarrow> app" where
  "ratk_restored restored s =
     s\<lparr>ratk_anchors := ratk_anchors s @ filter (\<lambda>a. a \<notin> set (ratk_anchors s)) (remdups restored),
       ratk_isPersistent := (\<lambda>a. a \<in> set restored \<or> ratk_isPersistent s a)\<rparr>"

fun error_message :: "error \<Rightarrow> string" where
  "error_message (Error m) = m"

text \<open>
  The callback that \<^verbatim>\<open>setupRATK\<close> hands to \<^verbatim>\<open>setTimeout\<close> on \<^verbatim>\<open>sessionstart\<close>. The
  \<^verbatim>\<open>try\<close> block holds the call and the \<^verbatim>\<open>then\<close> registration and no \<^verbatim>\<open>await\<close>, so
  its \<^verbatim>\<open>catch\<close> sees an exception thrown by the call itself; a promise that
  rejects later has no rejection handler. \<open>Inl\<close> is the exception the callback
  throws.
\<close>

definition setupRATK_sessionstart_timeout :: "restoreOutcome \<Rightarrow> app \<Rightarrow> (error + unit) \<times> app" where
  "setupRATK_sessionstart_timeout outcome s =
     (let s1 = s\<lparr>calls := calls s @ [RestorePersistentAnchors]\<rparr>
      in case outcome of
           RestoreThrows e \<Rightarrow>
             (Inl e, s1\<lparr>consoleErrors := consoleErrors s1 @
                          [''error restoring anchors: '' @ error_message e]\<rparr>)
         | RestoreRejects e \<Rightarrow>
             (Inr (), s1\<lparr>unhandledRejections := unhandledRejections s1 @ [e]\<rparr>)
         | RestoreResolves restored \<Rightarrow>
             (let s2 = ratk_restored restored s1
              in (Inr (), fold (\<lambda>anchor. setPrimaryAnchor anchor True) (ratk_anchors s2) s2)))"

text \<open>The \<^verbatim>\<open>loadAnnotationObjects\<close> calls of a trace, oldest first.\<close>

definition loadCalls :: "app \<Rightarrow> call list" where
  "loadCalls s =
     filter (\<lambda>c. case c of LoadAnnotationObjects _ \<Rightarrow> True | _ \<Rightarrow> False) (calls s)"

section \<open>The select gesture\<close>

text \<open>
  Modelled from the spec: \<^verbatim>\<open>annotationObject.setState\<close> is a method of the
  annotation-object module, which is not part of the sources at hand. The
  specification says that it "transitions the object's state" and "triggers no
  side effects itself".
\<close>

definition setState :: "nat \<Rightarrow> string \<Rightarrow> app \<Rightarrow> app" where
  "setState k newState s =
     s\<lparr>annotationObjects := (annotationObjects s)(k := (annotationObjects s k)\<lparr>ao_state := newState\<rparr>)\<rparr>"

text \<open>\<^verbatim>\<open>clearTextUi\<close> removes the first child of the toolbar until none is left.\<close>

definition clearTextUi :: "app \<Rightarrow> app" where
  "clearTextUi s = s\<lparr>uiToolbarChildren := []\<rparr>"

text \<open>
  \<^verbatim>\<open>updateTextUi\<close> clears the toolbar and adds two text meshes: the user name
  followed by \<^verbatim>\<open>" says:"\<close>, and the text (which may be \<^verbatim>\<open>null\<close>).
\<close>

definition updateTextUi :: "string \<Rightarrow> string option \<Rightarrow> app \<Rightarrow> app" where
  "updateTextUi uname txt s =
     (let s1 = clearTextUi s
      in s1\<lparr>uiToolbarChildren := uiToolbarChildren s1 @ [Some (uname @ '' says:''), txt]\<rparr>)"

text \<open>
  Modelled from the spec: \<^verbatim>\<open>startCreatingAnnotationObject\<close> is the entry of the
  creation workflow, in a module that is not part of the sources at hand; the
  specification has it "invoked as a terminal action". The call is recorded
  with the anchor and the hit-test target it is given.
\<close>

definition startCreatingAnnotationObject :: "nat option \<Rightarrow> nat option \<Rightarrow> app \<Rightarrow> app" where
  "startCreatingAnnotationObject anchor hitTestTarget s =
     s\<lparr>calls := calls s @ [StartCreatingAnnotationObject anchor hitTestTarget]\<rparr>"

text \<open>
  The body of the \<^verbatim>\<open>if (hit.object && hit.object.annotationObject)\<close> branch, up to
  its \<^verbatim>\<open>return\<close>. The state is set before the text is awaited, so a rejected
  fetch leaves the object in \<^verbatim>\<open>"playing"\<close>.
\<close>

definition toggleAnnotationObject ::
  "(error + userTextRecord list) \<Rightarrow> nat \<Rightarrow> app \<Rightarrow> (error + unit) \<times> app" where
  "toggleAnnotationObject fetch k s =
     (if ao_state (annotationObjects s k) = ''complete'' then
        (let s1 = setState k ''playing'' s;
             uname = ao_username (annotationObjects s1 k)
         in case getUserText fetch uname s1 of
              (Inl e, s2) \<Rightarrow> (Inl e, s2)
            | (Inr txt, s2) \<Rightarrow> (Inr (), updateTextUi uname txt s2))
      else if ao_state (annotationObjects s k) = ''playing'' then
        (Inr (), clearTextUi (setState k ''complete'' s))
      else (Inr (), s))"

text \<open>
  The loop over the hits, nearest first. \<open>None\<close>: the loop ran to its end;
  \<open>Some\<close>: the handler returned (or threw) inside the loop.
\<close>

fun scanHits ::
  "(error + userTextRecord list) \<Rightarrow> hit list \<Rightarrow> app \<Rightarrow> ((error + unit) \<times> app) option" where
  "scanHits fetch [] s = None"
| "scanHits fetch (h # hs) s =
     (case hit_object h of
        None \<Rightarrow> scanHits fetch hs s
      | Some ob \<Rightarrow>
          (case annotationObjectRef ob of
             None \<Rightarrow> scanHits fetch hs s
           | Some k \<Rightarrow> Some (toggleAnnotationObject fetch k s)))"

text \<open>
  \<^verbatim>\<open>handleSelectStart\<close>. \<open>hits\<close> is what the raycaster returns for the children of
  the primary anchor (it is asked only when there is a primary anchor),
  \<open>hitTestTarget\<close> is \<^verbatim>\<open>this.hitTestTarget\<close> of the controller.
\<close>

definition handleSelectStart ::
  "(error + userTextRecord list) \<Rightarrow> hit list \<Rightarrow> nat option \<Rightarrow> app \<Rightarrow> (error + unit) \<times> app" where
  "handleSelectStart fetch hits hitTestTarget s =
     (case (case primaryAnchor s of
              None \<Rightarrow> None
            | Some _ \<Rightarrow> scanHits fetch hits s) of
        Some res \<Rightarrow> res
      | None \<Rightarrow>
          (Inr (), startCreatingAnnotationObject (primaryAnchor s) hitTestTarget s))"

text \<open>The creation-workflow calls of a trace, oldest first.\<close>

definition creationCalls :: "app \<Rightarrow> call list" where
  "creationCalls s =
     filter (\<lambda>c. case c of StartCreatingAnnotationObject _ _ \<Rightarrow> True | _ \<Rightarrow> False) (calls s)"

text \<open>The annotation object a hit carries, if it carries one.\<close>

definition hitAnnotation :: "hit \<Rightarrow> nat option" where
  "hitAnnotation h =
     (case hit_object h of None \<Rightarrow> None | Some ob \<Rightarrow> annotationObjectRef ob)"

section \<open>Properties of the text cache\<close>

text \<open>
  C1. The scenario of the claim: the store holds the one record of user
  \<^verbatim>\<open>ana\<close> with the text \<^verbatim>\<open>hello\<close>, and \<^verbatim>\<open>getUserText("ana")\<close> is called twice after a
  cold start. The claim expects the text and one fetch. The code awaits the
  fetch and stores nothing, so the cache is still empty afterwards: both calls
  return \<^verbatim>\<open>null\<close> and each of them fetches, two fetches in all.
\<close>

theorem getUserText_cold_start_fetches_twice:
  "(let fetch = Inr [\<lparr>rec_username = ''ana'', rec_text = ''hello''\<rparr>];
        (r1, s1) = getUserText fetch ''ana'' init_app;
        (r2, s2) = getUserText fetch ''ana'' s1
    in r1 = Inr None \<and> fetchCount s1 = 1 \<and> userTextRecords s1 = [] \<and>
       r2 = Inr None \<and> fetchCount s2 = 2)"
  by (simp add: getUserText_def updateUserTextRecords_def init_app_def fetchCount_def Let_def)

text \<open>
  For every user, every outcome of the fetch and every state, \<^verbatim>\<open>getUserText\<close>
  leaves the cache as it found it.
\<close>

lemma getUserText_cache_unchanged:
  "userTextRecords (snd (getUserText fetch u s)) = userTextRecords s"
  by (cases fetch)
     (simp_all add: getUserText_def updateUserTextRecords_def Let_def split: option.splits)

lemma findIndex_absent: "\<forall>r\<in>set rs. \<not> p r \<Longrightarrow> findIndex p rs = -1"
  by (induction rs) simp_all

lemma findIndex_first:
  "\<forall>x\<in>set pre. \<not> p x \<Longrightarrow> p r \<Longrightarrow> findIndex p (pre @ r # post) = int (length pre)"
  by (induction pre) (simp_all add: Let_def)

lemma splice1_at: "splice1 (int (length pre)) (pre @ r # post) = pre @ post"
  by (simp add: splice1_def)

lemma removeUserTextRecord_cache:
  "userTextRecords (snd (removeUserTextRecord fetch u s)) =
     (let i = findIndex (\<lambda>r. rec_username r = u) (userTextRecords s)
      in if i = -1 then userTextRecords s else splice1 i (userTextRecords s))"
  by (cases fetch) (simp_all add: removeUserTextRecord_def updateUserTextRecords_def Let_def)

text \<open>
  C10. \<^verbatim>\<open>removeUserTextRecord(username)\<close> and the cache: when no cached record
  has the user name, the list of records is the same afterwards; when the
  cache is \<open>pre @ r # post\<close> with \<open>r\<close> the first record of that user, the list
  afterwards is \<open>pre @ post\<close>, every other record in its place. Both hold
  whether or not a fetch was made and whatever it returned.
\<close>

theorem removeUserTextRecord_frame:
  "((\<forall>r\<in>set (userTextRecords s). rec_username r \<noteq> u) \<longrightarrow>
      userTextRecords (snd (removeUserTextRecord fetch u s)) = userTextRecords s) \<and>
   (\<forall>pre r post.
      userTextRecords s = pre @ r # post \<and> rec_username r = u \<and>
      (\<forall>x\<in>set pre. rec_username x \<noteq> u) \<longrightarrow>
      userTextRecords (snd (removeUserTextRecord fetch u s)) = pre @ post)"
proof (intro conjI impI allI)
  assume "\<forall>r\<in>set (userTextRecords s). rec_username r \<noteq> u"
  then show "userTextRecords (snd (removeUserTextRecord fetch u s)) = userTextRecords s"
    by (simp add: removeUserTextRecord_cache findIndex_absent)
next
  fix pre r post
  assume "userTextRecords s = pre @ r # post \<and> rec_username r = u \<and>
          (\<forall>x\<in>set pre. rec_username x \<noteq> u)"
  then show "userTextRecords (snd (removeUserTextRecord fetch u s)) = pre @ post"
    by (simp add: removeUserTextRecord_cache findIndex_first splice1_at)
qed

theorem removeUserTextRecord_frame_witness:
  "userTextRecords (snd (removeUserTextRecord (Inr []) ''zed''
      (init_app\<lparr>userTextRecords :=
         [\<lparr>rec_username = ''ana'', rec_text = ''hello''\<rparr>,
          \<lparr>rec_username = ''bob'', rec_text = ''hi''\<rparr>,
          \<lparr>rec_username = ''bob'', rec_text = ''again''\<rparr>]\<rparr>))) =
     [\<lparr>rec_username = ''ana'', rec_text = ''hello''\<rparr>,
      \<lparr>rec_username = ''bob'', rec_text = ''hi''\<rparr>,
      \<lparr>rec_username = ''bob'', rec_text = ''again''\<rparr>] \<and>
   userTextRecords (snd (removeUserTextRecord (Inr []) ''bob''
      (init_app\<lparr>userTextRecords :=
         [\<lparr>rec_username = ''ana'', rec_text = ''hello''\<rparr>,
          \<lparr>rec_username = ''bob'', rec_text = ''hi''\<rparr>,
          \<lparr>rec_username = ''bob'', rec_text = ''again''\<rparr>]\<rparr>))) =
     [\<lparr>rec_username = ''ana'', rec_text = ''hello''\<rparr>,
      \<lparr>rec_username = ''bob'', rec_text = ''again''\<rparr>]"
proof -
  let ?ana = "\<lparr>rec_username = ''ana'', rec_text = ''hello''\<rparr>"
  let ?bob = "\<lparr>rec_username = ''bob'', rec_text = ''hi''\<rparr>"
  let ?bob2 = "\<lparr>rec_username = ''bob'', rec_text = ''again''\<rparr>"
  let ?s = "init_app\<lparr>userTextRecords := [?ana, ?bob, ?bob2]\<rparr>"
  have absent: "\<forall>r\<in>set (userTextRecords ?s). rec_username r \<noteq> ''zed''"
    by simp
  have present: "userTextRecords ?s = [?ana] @ ?bob # [?bob2] \<and> rec_username ?bob = ''bob'' \<and>
      (\<forall>x\<in>set [?ana]. rec_username x \<noteq> ''bob'')"
    by simp
  from removeUserTextRecord_frame [of ?s "''zed''" "Inr []"] absent
  have 1: "userTextRecords (snd (removeUserTextRecord (Inr []) ''zed'' ?s)) = userTextRecords ?s"
    by blast
  from removeUserTextRecord_frame [of ?s "''bob''" "Inr []"] present
  have 2: "userTextRecords (snd (removeUserTextRecord (Inr []) ''bob'' ?s)) = [?ana] @ [?bob2]"
    by blast
  from 1 2 show ?thesis by simp
qed

section \<open>Properties of the primary anchor\<close>

lemma setPrimaryAnchor_primary:
  "primaryAnchor (setPrimaryAnchor a r s) = Some a"
  by (simp add: setPrimaryAnchor_def buildAnchorMarker_def loadAnnotationObjects_def
      object_add_def Let_def)

lemma setPrimaryAnchor_mesh:
  "primaryAnchorMesh (setPrimaryAnchor a r s) = Some (nextMesh s)"
  "nextMesh (setPrimaryAnchor a r s) = nextMesh s + 1"
  "meshColor (setPrimaryAnchor a r s) = (meshColor s)(nextMesh s := markerColor r)"
  by (simp_all add: setPrimaryAnchor_def buildAnchorMarker_def loadAnnotationObjects_def
      object_add_def object_remove_def scene_remove_mesh_def Let_def split: option.splits)

lemma setPrimaryAnchor_parent_mesh:
  "parent (setPrimaryAnchor a r s) (MeshN (nextMesh s)) = Some (AnchorN a)"
  by (simp_all add: setPrimaryAnchor_def buildAnchorMarker_def loadAnnotationObjects_def
      object_add_def object_remove_def scene_remove_mesh_def Let_def split: option.splits)

text \<open>
  Where an anchor hangs after \<^verbatim>\<open>setPrimaryAnchor\<close>: the new one under the scene,
  the previous primary anchor detached from it, every other anchor where it
  was.
\<close>

lemma setPrimaryAnchor_parent_anchor:
  "parent (setPrimaryAnchor a r s) (AnchorN b) =
     (if b = a then Some Scene
      else if primaryAnchor s = Some b \<and> parent s (AnchorN b) = Some Scene then None
      else parent s (AnchorN b))"
  by (simp add: setPrimaryAnchor_def buildAnchorMarker_def loadAnnotationObjects_def
      object_add_def object_remove_def scene_remove_mesh_def Let_def split: option.splits)

lemma setPrimaryAnchor_calls_trace:
  "calls (setPrimaryAnchor a r s) = calls s @ [LoadAnnotationObjects a]"
  by (simp add: setPrimaryAnchor_def buildAnchorMarker_def loadAnnotationObjects_def
      object_add_def object_remove_def scene_remove_mesh_def Let_def split: option.splits)

lemma setPrimaryAnchor_attached:
  assumes "\<forall>b. parent s (AnchorN b) = Some Scene \<longrightarrow> primaryAnchor s = Some b"
  shows "parent (setPrimaryAnchor a r s) (AnchorN b) = Some Scene \<longleftrightarrow> b = a"
  using assms by (auto simp: setPrimaryAnchor_parent_anchor)

lemma setPrimaryAnchor_calls_snoc:
  "setPrimaryAnchor_calls (cs @ [(a, r)]) s = setPrimaryAnchor a r (setPrimaryAnchor_calls cs s)"
  by (induction cs arbitrary: s) auto

lemma setPrimaryAnchor_calls_attached:
  assumes "\<forall>b. parent s (AnchorN b) = Some Scene \<longrightarrow> primaryAnchor s = Some b"
  shows "\<forall>b. parent (setPrimaryAnchor_calls cs s) (AnchorN b) = Some Scene \<longrightarrow>
             primaryAnchor (setPrimaryAnchor_calls cs s) = Some b"
  using assms
proof (induction cs arbitrary: s)
  case Nil
  then show ?case by simp
next
  case (Cons c cs)
  obtain a r where c: "c = (a, r)" by (cases c)
  have "\<forall>b. parent (setPrimaryAnchor a r s) (AnchorN b) = Some Scene \<longrightarrow>
            primaryAnchor (setPrimaryAnchor a r s) = Some b"
    using setPrimaryAnchor_attached [OF Cons.prems] by (simp add: setPrimaryAnchor_primary)
  from Cons.IH [OF this] show ?case by (simp add: c)
qed

text \<open>
  The state after a non-empty sequence of calls, read off its last call
  \<open>(a, r)\<close>: \<open>a\<close> is the primary anchor and hangs under the scene, and the marker
  in \<open>primaryAnchorMesh\<close> hangs under \<open>a\<close> and has the colour of \<open>r\<close>.
\<close>

lemma setPrimaryAnchor_calls_last:
  "primaryAnchor (setPrimaryAnchor_calls (cs @ [(a, r)]) s) = Some a \<and>
   parent (setPrimaryAnchor_calls (cs @ [(a, r)]) s) (AnchorN a) = Some Scene \<and>
   (\<exists>m. primaryAnchorMesh (setPrimaryAnchor_calls (cs @ [(a, r)]) s) = Some m \<and>
        parent (setPrimaryAnchor_calls (cs @ [(a, r)]) s) (MeshN m) = Some (AnchorN a) \<and>
        meshColor (setPrimaryAnchor_calls (cs @ [(a, r)]) s) m = markerColor r)"
  by (simp add: setPrimaryAnchor_calls_snoc setPrimaryAnchor_primary
      setPrimaryAnchor_parent_anchor setPrimaryAnchor_mesh setPrimaryAnchor_parent_mesh)

text \<open>
  What holds for every sequence of \<^verbatim>\<open>setPrimaryAnchor\<close> calls, from a state in
  which only the primary anchor can hang under the scene (as after start-up):
  at most one anchor hangs under the scene afterwards, and it is the primary
  anchor. After a non-empty sequence the primary anchor is the anchor of the
  last call, it hangs under the scene, and the marker mesh installed by that
  call hangs under it and is red (\<^verbatim>\<open>0xff0000\<close>) when the last call had
  \<^verbatim>\<open>isRecovered\<close> true, green (\<^verbatim>\<open>0x00ff00\<close>) when false.
\<close>

lemma setPrimaryAnchor_calls_single_primary:
  assumes "\<forall>b. parent s (AnchorN b) = Some Scene \<longrightarrow> primaryAnchor s = Some b"
  shows "(\<forall>b c. parent (setPrimaryAnchor_calls cs s) (AnchorN b) = Some Scene \<and>
                parent (setPrimaryAnchor_calls cs s) (AnchorN c) = Some Scene \<longrightarrow> b = c) \<and>
         (\<forall>b. parent (setPrimaryAnchor_calls cs s) (AnchorN b) = Some Scene \<longrightarrow>
              primaryAnchor (setPrimaryAnchor_calls cs s) = Some b) \<and>
         (cs \<noteq> [] \<longrightarrow>
            primaryAnchor (setPrimaryAnchor_calls cs s) = Some (fst (last cs)) \<and>
            parent (setPrimaryAnchor_calls cs s) (AnchorN (fst (last cs))) = Some Scene \<and>
            (\<exists>m. primaryAnchorMesh (setPrimaryAnchor_calls cs s) = Some m \<and>
                 parent (setPrimaryAnchor_calls cs s) (MeshN m) = Some (AnchorN (fst (last cs))) \<and>
                 meshColor (setPrimaryAnchor_calls cs s) m =
                   (if snd (last cs) then 0xff0000 else 0x00ff00)))"
proof -
  let ?s' = "setPrimaryAnchor_calls cs s"
  have inv: "\<forall>b. parent ?s' (AnchorN b) = Some Scene \<longrightarrow> primaryAnchor ?s' = Some b"
    by (rule setPrimaryAnchor_calls_attached [OF assms])
  then have one: "\<forall>b c. parent ?s' (AnchorN b) = Some Scene \<and>
                parent ?s' (AnchorN c) = Some Scene \<longrightarrow> b = c"
    by (metis option.inject)
  have lst: "primaryAnchor ?s' = Some (fst (last cs)) \<and>
            parent ?s' (AnchorN (fst (last cs))) = Some Scene \<and>
            (\<exists>m. primaryAnchorMesh ?s' = Some m \<and>
                 parent ?s' (MeshN m) = Some (AnchorN (fst (last cs))) \<and>
                 meshColor ?s' m = (if snd (last cs) then 0xff0000 else 0x00ff00))"
    if "cs \<noteq> []"
  proof -
    from that obtain cs' a r where cs: "cs = cs' @ [(a, r)]"
      by (metis rev_exhaust surj_pair)
    from setPrimaryAnchor_calls_last [of cs' a r s] show ?thesis
      by (simp add: cs markerColor_def)
  qed
  from inv one lst show ?thesis by blast
qed

lemma setPrimaryAnchor_calls_single_primary_example:
  "primaryAnchor (setPrimaryAnchor_calls [(1, True), (2, False)] init_app) = Some 2 \<and>
   parent (setPrimaryAnchor_calls [(1, True), (2, False)] init_app) (AnchorN 2) = Some Scene \<and>
   parent (setPrimaryAnchor_calls [(1, True), (2, False)] init_app) (AnchorN 1) = None \<and>
   primaryAnchorMesh (setPrimaryAnchor_calls [(1, True), (2, False)] init_app) = Some 1 \<and>
   meshColor (setPrimaryAnchor_calls [(1, True), (2, False)] init_app) 1 = 0x00ff00"
proof -
  have h: "\<forall>b. parent init_app (AnchorN b) = Some Scene \<longrightarrow> primaryAnchor init_app = Some b"
    by (simp add: init_app_def)
  show ?thesis
    using setPrimaryAnchor_calls_single_primary [OF h, of "[(1, True), (2, False)]"]
    by (simp add: setPrimaryAnchor_parent_anchor setPrimaryAnchor_primary setPrimaryAnchor_mesh
        markerColor_def init_app_def)
qed

text \<open>
  \<^verbatim>\<open>scene.remove(primaryAnchorMesh)\<close> detaches nothing when the marker hangs under
  its anchor, which is where \<^verbatim>\<open>buildAnchorMarker\<close> puts it: the marker leaves the
  scene with its anchor. An anchor that is installed a second time therefore
  still carries the marker of its first installation.
\<close>

lemma scene_remove_mesh_under_anchor:
  "parent s (MeshN m) = Some (AnchorN a) \<Longrightarrow> scene_remove_mesh (Some m) s = s"
  by (simp add: scene_remove_mesh_def object_remove_def)

lemma setPrimaryAnchor_parent_other_mesh:
  "parent (setPrimaryAnchor a r s) (MeshN k) =
     (if k = nextMesh s then Some (AnchorN a)
      else if primaryAnchor s \<noteq> None \<and> primaryAnchorMesh s = Some k \<and>
              parent s (MeshN k) = Some Scene then None
      else parent s (MeshN k))"
  by (simp add: setPrimaryAnchor_def buildAnchorMarker_def loadAnnotationObjects_def
      object_add_def object_remove_def scene_remove_mesh_def Let_def split: option.splits)

lemma setPrimaryAnchor_same_anchor_keeps_marker:
  "parent (setPrimaryAnchor a r2 (setPrimaryAnchor a r1 s)) (AnchorN a) = Some Scene \<and>
   parent (setPrimaryAnchor a r2 (setPrimaryAnchor a r1 s)) (MeshN (nextMesh s)) = Some (AnchorN a) \<and>
   meshColor (setPrimaryAnchor a r2 (setPrimaryAnchor a r1 s)) (nextMesh s) = markerColor r1"
  by (simp add: setPrimaryAnchor_parent_other_mesh setPrimaryAnchor_parent_anchor
      setPrimaryAnchor_mesh)

text \<open>
  C4. The claim expects, after every sequence of calls, one anchor under the
  scene whose marker has the colour of the most recent \<^verbatim>\<open>isRecovered\<close> flag, the
  previous marker having been removed from the scene. What the code does when
  anchor 7 is installed as newly created and then again as recovered (as the
  restoration does with an anchor created earlier in the session): the anchor
  hangs under the scene with two markers, the red one of the second call and
  the green one of the first call, which \<^verbatim>\<open>scene.remove(primaryAnchorMesh)\<close> did
  not detach from the anchor.
\<close>

theorem setPrimaryAnchor_reinstalled_keeps_stale_marker:
  "primaryAnchor (setPrimaryAnchor_calls [(7, False), (7, True)] init_app) = Some 7 \<and>
   parent (setPrimaryAnchor_calls [(7, False), (7, True)] init_app) (AnchorN 7) = Some Scene \<and>
   primaryAnchorMesh (setPrimaryAnchor_calls [(7, False), (7, True)] init_app) = Some 1 \<and>
   parent (setPrimaryAnchor_calls [(7, False), (7, True)] init_app) (MeshN 1) = Some (AnchorN 7) \<and>
   meshColor (setPrimaryAnchor_calls [(7, False), (7, True)] init_app) 1 = 0xff0000 \<and>
   parent (setPrimaryAnchor_calls [(7, False), (7, True)] init_app) (MeshN 0) = Some (AnchorN 7) \<and>
   meshColor (setPrimaryAnchor_calls [(7, False), (7, True)] init_app) 0 = 0x00ff00"
  by (simp add: setPrimaryAnchor_parent_other_mesh setPrimaryAnchor_parent_anchor
      setPrimaryAnchor_primary setPrimaryAnchor_mesh markerColor_def init_app_def)

section \<open>Properties of the restoration\<close>

lemma fold_setPrimaryAnchor:
  "fold (\<lambda>anchor. setPrimaryAnchor anchor r) as s = setPrimaryAnchor_calls (map (\<lambda>a. (a, r)) as) s"
  by (induction as arbitrary: s) simp_all

lemma setPrimaryAnchor_calls_loads:
  "calls (setPrimaryAnchor_calls cs s) = calls s @ map (\<lambda>c. LoadAnnotationObjects (fst c)) cs"
  by (induction cs arbitrary: s) (auto simp: setPrimaryAnchor_calls_trace)

lemma setPrimaryAnchor_calls_nextMesh:
  "nextMesh (setPrimaryAnchor_calls cs s) = nextMesh s + length cs"
  by (induction cs arbitrary: s) (auto simp: setPrimaryAnchor_mesh)

lemma setPrimaryAnchor_calls_meshColor_old:
  "k < nextMesh s \<Longrightarrow> meshColor (setPrimaryAnchor_calls cs s) k = meshColor s k"
  by (induction cs arbitrary: s) (auto simp: setPrimaryAnchor_mesh)

lemma setPrimaryAnchor_calls_meshColor:
  "i < length cs \<Longrightarrow>
     meshColor (setPrimaryAnchor_calls cs s) (nextMesh s + i) = markerColor (snd (cs ! i))"
proof (induction cs arbitrary: s i)
  case Nil
  then show ?case by simp
next
  case (Cons c cs)
  obtain a r where c: "c = (a, r)" by (cases c)
  show ?case
  proof (cases i)
    case 0
    then show ?thesis
      by (simp add: c setPrimaryAnchor_calls_meshColor_old setPrimaryAnchor_mesh)
  next
    case (Suc j)
    with Cons.prems have "j < length cs" by simp
    from Cons.IH [OF this, of "setPrimaryAnchor a r s"] show ?thesis
      by (simp add: c Suc setPrimaryAnchor_mesh)
  qed
qed

lemma ratk_restored_covers: "set restored \<subseteq> set (ratk_anchors (ratk_restored restored s))"
  by (auto simp: ratk_restored_def)

text \<open>
  C7. When \<^verbatim>\<open>restorePersistentAnchors\<close> resolves, the callback walks the
  anchor set of the tracking library, which holds every restored anchor, and
  installs each anchor with \<^verbatim>\<open>isRecovered = true\<close> in that order: one
  \<^verbatim>\<open>loadAnnotationObjects\<close> call and one red marker per anchor. Afterwards the
  primary anchor is the last anchor processed, and it is the only anchor that
  hangs under the scene.
\<close>

theorem restoration_installs_each_last_wins:
  assumes "\<forall>b. parent s (AnchorN b) = Some Scene \<longrightarrow> primaryAnchor s = Some b"
  shows "(let as = ratk_anchors (ratk_restored restored s);
              (r, s') = setupRATK_sessionstart_timeout (RestoreResolves restored) s
          in r = Inr () \<and> set restored \<subseteq> set as \<and>
             loadCalls s' = loadCalls s @ map LoadAnnotationObjects as \<and>
             nextMesh s' = nextMesh s + length as \<and>
             (\<forall>i<length as. meshColor s' (nextMesh s + i) = 0xff0000) \<and>
             (as \<noteq> [] \<longrightarrow>
                primaryAnchor s' = Some (last as) \<and>
                (\<forall>b. parent s' (AnchorN b) = Some Scene \<longleftrightarrow> b = last as)))"
proof -
  define s1 where "s1 = ratk_restored restored (s\<lparr>calls := calls s @ [RestorePersistentAnchors]\<rparr>)"
  define as where "as = ratk_anchors (ratk_restored restored s)"
  define cs where "cs = map (\<lambda>a. (a, True)) as"
  define s' where "s' = setPrimaryAnchor_calls cs s1"
  have as1: "ratk_anchors s1 = as"
    by (simp add: s1_def as_def ratk_restored_def)
  have run: "setupRATK_sessionstart_timeout (RestoreResolves restored) s = (Inr (), s')"
    by (simp add: setupRATK_sessionstart_timeout_def Let_def fold_setPrimaryAnchor
        s'_def cs_def as1 [symmetric] s1_def)
  have inv1: "\<forall>b. parent s1 (AnchorN b) = Some Scene \<longrightarrow> primaryAnchor s1 = Some b"
    using assms by (simp add: s1_def ratk_restored_def)
  have loads: "loadCalls s' = loadCalls s @ map LoadAnnotationObjects as"
    by (simp add: loadCalls_def s'_def setPrimaryAnchor_calls_loads cs_def s1_def
        ratk_restored_def comp_def filter_map)
  have nm: "nextMesh s' = nextMesh s + length as"
    by (simp add: s'_def setPrimaryAnchor_calls_nextMesh cs_def s1_def ratk_restored_def)
  have col: "\<forall>i<length as. meshColor s' (nextMesh s + i) = 0xff0000"
  proof (intro allI impI)
    fix i assume "i < length as"
    then have "i < length cs" by (simp add: cs_def)
    from setPrimaryAnchor_calls_meshColor [OF this, of s1]
    show "meshColor s' (nextMesh s + i) = 0xff0000"
      using \<open>i < length as\<close>
      by (simp add: s'_def cs_def s1_def ratk_restored_def markerColor_def)
  qed
  have lst: "primaryAnchor s' = Some (last as) \<and>
             (\<forall>b. parent s' (AnchorN b) = Some Scene \<longleftrightarrow> b = last as)" if "as \<noteq> []"
  proof -
    from that obtain as' a where as: "as = as' @ [a]"
      by (metis rev_exhaust)
    have cs: "cs = map (\<lambda>a. (a, True)) as' @ [(a, True)]"
      by (simp add: cs_def as)
    from setPrimaryAnchor_calls_last [of "map (\<lambda>a. (a, True)) as'" a True s1]
    have p: "primaryAnchor s' = Some a" and q: "parent s' (AnchorN a) = Some Scene"
      by (simp_all add: s'_def cs)
    from setPrimaryAnchor_calls_attached [OF inv1, of cs] p
    have "\<forall>b. parent s' (AnchorN b) = Some Scene \<longrightarrow> b = a"
      by (simp add: s'_def)
    have "last as = a" by (simp add: as)
    with p q \<open>\<forall>b. parent s' (AnchorN b) = Some Scene \<longrightarrow> b = a\<close> show ?thesis by blast
  qed
  have cov: "set restored \<subseteq> set as"
    unfolding as_def by (rule ratk_restored_covers)
  have "Inr () = (Inr () :: error + unit) \<and> set restored \<subseteq> set as \<and>
             loadCalls s' = loadCalls s @ map LoadAnnotationObjects as \<and>
             nextMesh s' = nextMesh s + length as \<and>
             (\<forall>i<length as. meshColor s' (nextMesh s + i) = 0xff0000) \<and>
             (as \<noteq> [] \<longrightarrow>
                primaryAnchor s' = Some (last as) \<and>
                (\<forall>b. parent s' (AnchorN b) = Some Scene \<longleftrightarrow> b = last as))"
    using cov loads nm col lst by blast
  then show ?thesis
    unfolding Let_def as_def [symmetric] run prod.case .
qed

theorem restoration_installs_each_last_wins_witness:
  "primaryAnchor (snd (setupRATK_sessionstart_timeout (RestoreResolves [4, 5, 6]) init_app)) = Some 6 \<and>
   parent (snd (setupRATK_sessionstart_timeout (RestoreResolves [4, 5, 6]) init_app)) (AnchorN 6) = Some Scene \<and>
   parent (snd (setupRATK_sessionstart_timeout (RestoreResolves [4, 5, 6]) init_app)) (AnchorN 5) \<noteq> Some Scene \<and>
   parent (snd (setupRATK_sessionstart_timeout (RestoreResolves [4, 5, 6]) init_app)) (AnchorN 4) \<noteq> Some Scene \<and>
   loadCalls (snd (setupRATK_sessionstart_timeout (RestoreResolves [4, 5, 6]) init_app)) =
     [LoadAnnotationObjects 4, LoadAnnotationObjects 5, LoadAnnotationObjects 6]"
proof -
  have h: "\<forall>b. parent init_app (AnchorN b) = Some Scene \<longrightarrow> primaryAnchor init_app = Some b"
    by (simp add: init_app_def)
  have as: "ratk_anchors (ratk_restored [4, 5, 6] init_app) = [4, 5, 6]"
    by (simp add: ratk_restored_def init_app_def)
  have l0: "loadCalls init_app = []"
    by (simp add: loadCalls_def init_app_def)
  obtain r s' where rs: "setupRATK_sessionstart_timeout (RestoreResolves [4, 5, 6]) init_app = (r, s')"
    by (cases "setupRATK_sessionstart_timeout (RestoreResolves [4, 5, 6]) init_app")
  from restoration_installs_each_last_wins [OF h, of "[4, 5, 6]"]
  have "primaryAnchor s' = Some 6 \<and> (\<forall>b. parent s' (AnchorN b) = Some Scene \<longleftrightarrow> b = 6) \<and>
        loadCalls s' = [LoadAnnotationObjects 4, LoadAnnotationObjects 5, LoadAnnotationObjects 6]"
    unfolding Let_def as rs prod.case l0 by simp
  then show ?thesis
    unfolding rs snd_conv by simp
qed

section \<open>Properties of the squeeze gesture and of the pending request\<close>

lemma deleteAnchors_frame:
  "cameraPosition (snd (deleteAnchors del as s)) = cameraPosition s \<and>
   pendingAnchorData (snd (deleteAnchors del as s)) = pendingAnchorData s \<and>
   ratk_isPersistent (snd (deleteAnchors del as s)) = ratk_isPersistent s \<and>
   createAnchorCalls (snd (deleteAnchors del as s)) = createAnchorCalls s"
  by (induction as arbitrary: s)
     (simp_all add: Let_def ratk_deleteAnchor_def createAnchorCalls_def split: option.splits)

lemma deleteAnchors_all:
  "\<forall>a\<in>set as. del a = None \<Longrightarrow>
     fst (deleteAnchors del as s) = Inr () \<and>
     calls (snd (deleteAnchors del as s)) = calls s @ map DeleteAnchor as \<and>
     ratk_anchors (snd (deleteAnchors del as s)) = filter (\<lambda>a. a \<notin> set as) (ratk_anchors s)"
proof (induction as arbitrary: s)
  case Nil
  then show ?case by simp
next
  case (Cons a as)
  let ?s1 = "ratk_deleteAnchor a (s\<lparr>calls := calls s @ [DeleteAnchor a]\<rparr>)"
  from Cons.prems have a: "del a = None" and rest: "\<forall>a\<in>set as. del a = None"
    by simp_all
  have step: "deleteAnchors del (a # as) s = deleteAnchors del as ?s1"
    by (simp add: a Let_def)
  have "filter (\<lambda>b. b \<notin> set as) (removeAll a (ratk_anchors s)) =
        filter (\<lambda>b. b \<notin> set (a # as)) (ratk_anchors s)"
    by (induction "ratk_anchors s") (auto simp: removeAll_filter_not_eq intro: filter_cong)
  with Cons.IH [OF rest, of ?s1] show ?case
    unfolding step by (simp add: ratk_deleteAnchor_def)
qed

lemma handleSqueezeStart_completes:
  assumes "\<forall>a\<in>set (persistentAnchors s). del a = None"
  shows "handleSqueezeStart del s =
           (Inr (), (snd (deleteAnchors del (persistentAnchors s) s))
              \<lparr>pendingAnchorData :=
                 Some \<lparr>position = Vector3 (vec_x (cameraPosition s)) 0 (vec_z (cameraPosition s)),
                       quaternion = new_Quaternion\<rparr>\<rparr>)"
proof -
  obtain r s1 where d: "deleteAnchors del (persistentAnchors s) s = (r, s1)"
    by (cases "deleteAnchors del (persistentAnchors s) s")
  from deleteAnchors_all [OF assms, of s] d have r: "r = Inr ()" by simp
  from deleteAnchors_frame [of del "persistentAnchors s" s] d
  have cam: "cameraPosition s1 = cameraPosition s" by simp
  show ?thesis
    by (simp add: handleSqueezeStart_def d r cam Let_def)
qed


lemma deleteAnchors_stops:
  "\<forall>b\<in>set pre. del b = None \<Longrightarrow> del a = Some e \<Longrightarrow>
     fst (deleteAnchors del (pre @ a # post) s) = Inl e \<and>
     calls (snd (deleteAnchors del (pre @ a # post) s)) =
       calls s @ map DeleteAnchor (pre @ [a]) \<and>
     ratk_anchors (snd (deleteAnchors del (pre @ a # post) s)) =
       filter (\<lambda>b. b \<notin> set pre) (ratk_anchors s)"
proof (induction pre arbitrary: s)
  case Nil
  then show ?case by (simp add: Let_def)
next
  case (Cons p pre)
  let ?s1 = "ratk_deleteAnchor p (s\<lparr>calls := calls s @ [DeleteAnchor p]\<rparr>)"
  from Cons.prems have p: "del p = None" and rest: "\<forall>b\<in>set pre. del b = None"
    by simp_all
  have step: "deleteAnchors del ((p # pre) @ a # post) s = deleteAnchors del (pre @ a # post) ?s1"
    by (simp add: p Let_def)
  have "filter (\<lambda>b. b \<notin> set pre) (removeAll p (ratk_anchors s)) =
        filter (\<lambda>b. b \<notin> set (p # pre)) (ratk_anchors s)"
    by (induction "ratk_anchors s") (auto simp: removeAll_filter_not_eq intro: filter_cong)
  with Cons.IH [OF rest Cons.prems(2), of ?s1] show ?case
    unfolding step by (simp add: ratk_deleteAnchor_def)
qed

lemma handleSqueezeStart_rejected:
  assumes "persistentAnchors s = pre @ a # post"
      and "\<forall>b\<in>set pre. del b = None" and "del a = Some e"
  shows "handleSqueezeStart del s = (Inl e, snd (deleteAnchors del (persistentAnchors s) s))"
proof -
  obtain r s1 where d: "deleteAnchors del (persistentAnchors s) s = (r, s1)"
    by (cases "deleteAnchors del (persistentAnchors s) s")
  from deleteAnchors_stops [OF assms(2,3), of post s] d have r: "r = Inl e"
    by (simp add: assms(1))
  show ?thesis
    by (simp add: handleSqueezeStart_def d r)
qed

text \<open>
  C6. The squeeze gesture. When every delete resolves, the handler completes:
  it has issued one \<^verbatim>\<open>deleteAnchor\<close> per persistent anchor, in the order of the
  set, no persistent anchor is left in the set of the tracking library, and
  the pending request holds the camera position with \<open>y = 0\<close> and the identity
  quaternion. Each delete is awaited before the next is issued and before the
  request is recorded: when the delete of \<open>a\<close> is the first that rejects, with
  \<open>e\<close>, the handler rejects with \<open>e\<close>, the deletes issued are those up to and
  including \<open>a\<close> and none of the anchors after it, only the anchors before \<open>a\<close>
  have left the set, and no request has been recorded.
\<close>

theorem handleSqueezeStart_deletes_all_then_requests:
  "((\<forall>a\<in>set (persistentAnchors s). del a = None) \<longrightarrow>
      (\<exists>s'. handleSqueezeStart del s = (Inr (), s') \<and>
            deleteAnchorCalls s' = deleteAnchorCalls s @ map DeleteAnchor (persistentAnchors s) \<and>
            persistentAnchors s' = [] \<and>
            pendingAnchorData s' =
              Some \<lparr>position = Vector3 (vec_x (cameraPosition s)) 0 (vec_z (cameraPosition s)),
                    quaternion = Quaternion 0 0 0 1\<rparr>)) \<and>
   (\<forall>pre a post e.
      persistentAnchors s = pre @ a # post \<and> (\<forall>b\<in>set pre. del b = None) \<and> del a = Some e \<longrightarrow>
      (\<exists>s'. handleSqueezeStart del s = (Inl e, s') \<and>
            deleteAnchorCalls s' = deleteAnchorCalls s @ map DeleteAnchor (pre @ [a]) \<and>
            ratk_anchors s' = filter (\<lambda>b. b \<notin> set pre) (ratk_anchors s) \<and>
            pendingAnchorData s' = pendingAnchorData s))"
proof (intro conjI impI allI)
  assume ok: "\<forall>a\<in>set (persistentAnchors s). del a = None"
  let ?d = "snd (deleteAnchors del (persistentAnchors s) s)"
  let ?s' = "?d\<lparr>pendingAnchorData :=
                 Some \<lparr>position = Vector3 (vec_x (cameraPosition s)) 0 (vec_z (cameraPosition s)),
                       quaternion = new_Quaternion\<rparr>\<rparr>"
  note all = deleteAnchors_all [OF ok, of s]
  note frame = deleteAnchors_frame [of del "persistentAnchors s" s]
  have run: "handleSqueezeStart del s = (Inr (), ?s')"
    by (rule handleSqueezeStart_completes [OF ok])
  have dels: "deleteAnchorCalls ?s' = deleteAnchorCalls s @ map DeleteAnchor (persistentAnchors s)"
    using all by (simp add: deleteAnchorCalls_def)
  have "persistentAnchors ?s' =
          filter (ratk_isPersistent s) (filter (\<lambda>a. a \<notin> set (persistentAnchors s)) (ratk_anchors s))"
    using all frame by (simp add: persistentAnchors_def)
  also have "\<dots> = []"
    by (auto simp: persistentAnchors_def filter_empty_conv)
  finally have none: "persistentAnchors ?s' = []" .
  have pend: "pendingAnchorData ?s' =
                Some \<lparr>position = Vector3 (vec_x (cameraPosition s)) 0 (vec_z (cameraPosition s)),
                      quaternion = Quaternion 0 0 0 1\<rparr>"
    by (simp add: new_Quaternion_def)
  from run dels none pend
  show "\<exists>s'. handleSqueezeStart del s = (Inr (), s') \<and>
            deleteAnchorCalls s' = deleteAnchorCalls s @ map DeleteAnchor (persistentAnchors s) \<and>
            persistentAnchors s' = [] \<and>
            pendingAnchorData s' =
              Some \<lparr>position = Vector3 (vec_x (cameraPosition s)) 0 (vec_z (cameraPosition s)),
                    quaternion = Quaternion 0 0 0 1\<rparr>"
    by blast
next
  fix pre a post e
  assume a: "persistentAnchors s = pre @ a # post \<and> (\<forall>b\<in>set pre. del b = None) \<and>
             del a = Some e"
  let ?d = "snd (deleteAnchors del (persistentAnchors s) s)"
  from a have pa: "persistentAnchors s = pre @ a # post" and pre: "\<forall>b\<in>set pre. del b = None"
    and da: "del a = Some e"
    by simp_all
  note stop = deleteAnchors_stops [OF pre da, of post s]
  note frame = deleteAnchors_frame [of del "persistentAnchors s" s]
  have run: "handleSqueezeStart del s = (Inl e, ?d)"
    by (rule handleSqueezeStart_rejected [OF pa pre da])
  have dels: "deleteAnchorCalls ?d = deleteAnchorCalls s @ map DeleteAnchor (pre @ [a])"
    using stop by (simp add: deleteAnchorCalls_def pa)
  have anch: "ratk_anchors ?d = filter (\<lambda>b. b \<notin> set pre) (ratk_anchors s)"
    using stop by (simp add: pa)
  have pend: "pendingAnchorData ?d = pendingAnchorData s"
    using frame by simp
  from run dels anch pend
  show "\<exists>s'. handleSqueezeStart del s = (Inl e, s') \<and>
            deleteAnchorCalls s' = deleteAnchorCalls s @ map DeleteAnchor (pre @ [a]) \<and>
            ratk_anchors s' = filter (\<lambda>b. b \<notin> set pre) (ratk_anchors s) \<and>
            pendingAnchorData s' = pendingAnchorData s"
    by blast
qed

theorem handleSqueezeStart_deletes_all_then_requests_witness:
  "persistentAnchors (init_app\<lparr>ratk_anchors := [7, 8, 9], ratk_isPersistent := (\<lambda>a. a = 7 \<or> a = 9)\<rparr>) = [7, 9] \<and>
   (\<exists>s'. handleSqueezeStart (\<lambda>_. None)
           (init_app\<lparr>ratk_anchors := [7, 8, 9], ratk_isPersistent := (\<lambda>a. a = 7 \<or> a = 9)\<rparr>) = (Inr (), s') \<and>
         deleteAnchorCalls s' = [DeleteAnchor 7, DeleteAnchor 9] \<and>
         persistentAnchors s' = [] \<and>
         pendingAnchorData s' =
           Some \<lparr>position = Vector3 0 0 3, quaternion = Quaternion 0 0 0 1\<rparr>) \<and>
   (\<exists>s'. handleSqueezeStart (\<lambda>a. if a = 7 then Some (Error ''busy'') else None)
           (init_app\<lparr>ratk_anchors := [7, 8, 9], ratk_isPersistent := (\<lambda>a. a = 7 \<or> a = 9)\<rparr>) =
             (Inl (Error ''busy''), s') \<and>
         deleteAnchorCalls s' = [DeleteAnchor 7] \<and>
         ratk_anchors s' = [7, 8, 9] \<and>
         pendingAnchorData s' = None)"
proof -
  let ?s = "init_app\<lparr>ratk_anchors := [7, 8, 9], ratk_isPersistent := (\<lambda>a. a = 7 \<or> a = 9)\<rparr>"
  let ?del = "\<lambda>a::nat. if a = 7 then Some (Error ''busy'') else None"
  have p: "persistentAnchors ?s = [7, 9]"
    by (simp add: persistentAnchors_def init_app_def)
  have h: "\<forall>a\<in>set (persistentAnchors ?s). (\<lambda>_. None :: error option) a = None"
    by simp
  have f: "persistentAnchors ?s = [] @ 7 # [9] \<and> (\<forall>b\<in>set []. ?del b = None) \<and>
           ?del 7 = Some (Error ''busy'')"
    by (simp add: p)
  have d0: "deleteAnchorCalls ?s = []"
    by (simp add: deleteAnchorCalls_def init_app_def)
  have cam: "cameraPosition ?s = Vector3 0 (16 / 10) 3"
    by (simp add: init_app_def)
  have a0: "ratk_anchors ?s = [7, 8, 9]" and p0: "pendingAnchorData ?s = None"
    by (simp_all add: init_app_def)
  from handleSqueezeStart_deletes_all_then_requests [of ?s "\<lambda>_. None"] h
  have 1: "\<exists>s'. handleSqueezeStart (\<lambda>_. None) ?s = (Inr (), s') \<and>
            deleteAnchorCalls s' = deleteAnchorCalls ?s @ map DeleteAnchor (persistentAnchors ?s) \<and>
            persistentAnchors s' = [] \<and>
            pendingAnchorData s' =
              Some \<lparr>position = Vector3 (vec_x (cameraPosition ?s)) 0 (vec_z (cameraPosition ?s)),
                    quaternion = Quaternion 0 0 0 1\<rparr>"
    by blast
  from handleSqueezeStart_deletes_all_then_requests [of ?s ?del] f
  have 2: "\<exists>s'. handleSqueezeStart ?del ?s = (Inl (Error ''busy''), s') \<and>
            deleteAnchorCalls s' = deleteAnchorCalls ?s @ map DeleteAnchor ([] @ [7]) \<and>
            ratk_anchors s' = filter (\<lambda>b. b \<notin> set []) (ratk_anchors ?s) \<and>
            pendingAnchorData s' = pendingAnchorData ?s"
    by blast
  from 1 have r1: "\<exists>s'. handleSqueezeStart (\<lambda>_. None) ?s = (Inr (), s') \<and>
         deleteAnchorCalls s' = [DeleteAnchor 7, DeleteAnchor 9] \<and>
         persistentAnchors s' = [] \<and>
         pendingAnchorData s' =
           Some \<lparr>position = Vector3 0 0 3, quaternion = Quaternion 0 0 0 1\<rparr>"
    unfolding p d0 cam by simp
  from 2 have r2: "\<exists>s'. handleSqueezeStart ?del ?s = (Inl (Error ''busy''), s') \<and>
         deleteAnchorCalls s' = [DeleteAnchor 7] \<and>
         ratk_anchors s' = [7, 8, 9] \<and>
         pendingAnchorData s' = None"
    unfolding d0 a0 p0 by simp
  from p r1 r2 show ?thesis by blast
qed

lemma handlePendingAnchors_some:
  "pendingAnchorData s = Some pending \<Longrightarrow>
     createAnchorCalls (handlePendingAnchors s) =
       createAnchorCalls s @ [CreateAnchor (position pending) (quaternion pending) True] \<and>
     pendingAnchorData (handlePendingAnchors s) = None \<and>
     handlePendingAnchors (handlePendingAnchors s) = handlePendingAnchors s"
  by (simp add: handlePendingAnchors_def createAnchorCalls_def)

lemma handleSqueezeStart_result:
  assumes "handleSqueezeStart del s = (Inr (), s')"
  shows "pendingAnchorData s' =
           Some \<lparr>position = Vector3 (vec_x (cameraPosition s)) 0 (vec_z (cameraPosition s)),
                 quaternion = new_Quaternion\<rparr> \<and>
         createAnchorCalls s' = createAnchorCalls s \<and>
         cameraPosition s' = cameraPosition s"
proof -
  obtain r s1 where d: "deleteAnchors del (persistentAnchors s) s = (r, s1)"
    by (cases "deleteAnchors del (persistentAnchors s) s")
  from deleteAnchors_frame [of del "persistentAnchors s" s] d
  have fr: "cameraPosition s1 = cameraPosition s" "createAnchorCalls s1 = createAnchorCalls s"
    by simp_all
  from assms d have r: "r = Inr ()"
    by (cases r) (simp_all add: handleSqueezeStart_def)
  from assms have "s' = s1\<lparr>pendingAnchorData :=
                 Some \<lparr>position = Vector3 (vec_x (cameraPosition s1)) 0 (vec_z (cameraPosition s1)),
                       quaternion = new_Quaternion\<rparr>\<rparr>"
    by (simp add: handleSqueezeStart_def d r Let_def)
  with fr show ?thesis
    by (simp add: createAnchorCalls_def)
qed

text \<open>
  C5. Two squeeze gestures complete before the next frame, the camera being at
  \<open>cameraPosition s\<close> for the first and at \<open>p2\<close> for the second. The first
  request was recorded and is overwritten by the second: the tick issues
  exactly one \<^verbatim>\<open>createAnchor\<close> call, persistent, with the transform of the
  second request; it clears the slot, and a further tick changes nothing.
\<close>

theorem second_request_wins_one_createAnchor:
  assumes "handleSqueezeStart del1 s = (Inr (), s1)"
      and "handleSqueezeStart del2 (s1\<lparr>cameraPosition := p2\<rparr>) = (Inr (), s2)"
  shows "pendingAnchorData s1 =
           Some \<lparr>position = Vector3 (vec_x (cameraPosition s)) 0 (vec_z (cameraPosition s)),
                 quaternion = Quaternion 0 0 0 1\<rparr> \<and>
         createAnchorCalls (handlePendingAnchors s2) =
           createAnchorCalls s @ [CreateAnchor (Vector3 (vec_x p2) 0 (vec_z p2)) (Quaternion 0 0 0 1) True] \<and>
         pendingAnchorData (handlePendingAnchors s2) = None \<and>
         handlePendingAnchors (handlePendingAnchors s2) = handlePendingAnchors s2"
proof -
  note r1 = handleSqueezeStart_result [OF assms(1)]
  note r2 = handleSqueezeStart_result [OF assms(2)]
  from r2 have pend2: "pendingAnchorData s2 =
      Some \<lparr>position = Vector3 (vec_x p2) 0 (vec_z p2), quaternion = new_Quaternion\<rparr>"
    by simp
  from r1 r2 have cc: "createAnchorCalls s2 = createAnchorCalls s"
    by (simp add: createAnchorCalls_def)
  from handlePendingAnchors_some [OF pend2] cc r1 show ?thesis
    by (simp add: new_Quaternion_def)
qed

theorem second_request_wins_one_createAnchor_witness:
  "createAnchorCalls
     (handlePendingAnchors
        (snd (handleSqueezeStart (\<lambda>_. None)
           ((snd (handleSqueezeStart (\<lambda>_. None) init_app))\<lparr>cameraPosition := Vector3 5 2 (-1)\<rparr>)))) =
     [CreateAnchor (Vector3 5 0 (-1)) (Quaternion 0 0 0 1) True] \<and>
   pendingAnchorData (snd (handleSqueezeStart (\<lambda>_. None) init_app)) =
     Some \<lparr>position = Vector3 0 0 3, quaternion = Quaternion 0 0 0 1\<rparr>"
proof -
  let ?s1 = "snd (handleSqueezeStart (\<lambda>_. None) init_app)"
  let ?s2 = "snd (handleSqueezeStart (\<lambda>_. None) (?s1\<lparr>cameraPosition := Vector3 5 2 (-1)\<rparr>))"
  have pa: "persistentAnchors init_app = []"
    by (simp add: persistentAnchors_def init_app_def)
  have a1: "handleSqueezeStart (\<lambda>_. None) init_app = (Inr (), ?s1)"
    by (simp add: handleSqueezeStart_def pa Let_def)
  have pa1: "persistentAnchors (?s1\<lparr>cameraPosition := Vector3 5 2 (-1)\<rparr>) = []"
    by (simp add: handleSqueezeStart_def pa Let_def persistentAnchors_def init_app_def)
  have a2: "handleSqueezeStart (\<lambda>_. None) (?s1\<lparr>cameraPosition := Vector3 5 2 (-1)\<rparr>) = (Inr (), ?s2)"
    by (simp add: handleSqueezeStart_def [of _ "?s1\<lparr>cameraPosition := Vector3 5 2 (-1)\<rparr>"] pa1 Let_def)
  have c0: "createAnchorCalls init_app = []"
    by (simp add: createAnchorCalls_def init_app_def)
  have cam: "cameraPosition init_app = Vector3 0 (16 / 10) 3"
    by (simp add: init_app_def)
  from second_request_wins_one_createAnchor [OF a1 a2]
  show ?thesis
    unfolding c0 cam by simp
qed

section \<open>Properties of the select gesture\<close>

lemma scanHits_none:
  "\<forall>h\<in>set hits. hitAnnotation h = None \<Longrightarrow> scanHits fetch hits s = None"
  by (induction hits) (auto simp: hitAnnotation_def split: option.splits)

lemma scanHits_first:
  "\<forall>h'\<in>set pre. hitAnnotation h' = None \<Longrightarrow> hitAnnotation h = Some k \<Longrightarrow>
     scanHits fetch (pre @ h # post) s = Some (toggleAnnotationObject fetch k s)"
  by (induction pre) (auto simp: hitAnnotation_def split: option.splits)

lemma getUserText_state:
  "snd (getUserText fetch u s) =
     (if userTextRecords s = [] then s\<lparr>calls := calls s @ [FetchAllTextFiles]\<rparr> else s)"
  by (cases fetch)
     (simp_all add: getUserText_def updateUserTextRecords_def Let_def split: option.splits)

lemma getUserText_rejected:
  "userTextRecords s = [] \<Longrightarrow> fst (getUserText (Inl e) u s) = Inl e"
  by (simp add: getUserText_def updateUserTextRecords_def Let_def)

lemma toggleAnnotationObject_objects:
  "annotationObjects (snd (toggleAnnotationObject fetch k s)) =
     (annotationObjects s)
       (k := (annotationObjects s k)\<lparr>ao_state :=
          (if ao_state (annotationObjects s k) = ''complete'' then ''playing''
           else if ao_state (annotationObjects s k) = ''playing'' then ''complete''
           else ao_state (annotationObjects s k))\<rparr>)"
proof -
  let ?s1 = "setState k ''playing'' s"
  let ?u = "ao_username (annotationObjects ?s1 k)"
  obtain r s2 where g: "getUserText fetch ?u ?s1 = (r, s2)"
    by (cases "getUserText fetch ?u ?s1")
  from getUserText_state [of fetch ?u ?s1] g
  have "annotationObjects s2 = annotationObjects ?s1"
    by (simp split: if_splits)
  then show ?thesis
    using g
    by (cases r)
       (auto simp: toggleAnnotationObject_def Let_def setState_def updateTextUi_def
          clearTextUi_def)
qed

lemma toggleAnnotationObject_creationCalls:
  "creationCalls (snd (toggleAnnotationObject fetch k s)) = creationCalls s"
proof -
  let ?s1 = "setState k ''playing'' s"
  let ?u = "ao_username (annotationObjects ?s1 k)"
  obtain r s2 where g: "getUserText fetch ?u ?s1 = (r, s2)"
    by (cases "getUserText fetch ?u ?s1")
  from getUserText_state [of fetch ?u ?s1] g
  have "creationCalls s2 = creationCalls s"
    by (simp add: creationCalls_def setState_def split: if_splits)
  then show ?thesis
    using g
    by (cases r)
       (auto simp: toggleAnnotationObject_def Let_def setState_def updateTextUi_def
          clearTextUi_def creationCalls_def)
qed

lemma toggleAnnotationObject_other:
  "ao_state (annotationObjects s k) \<noteq> ''complete'' \<Longrightarrow>
   ao_state (annotationObjects s k) \<noteq> ''playing'' \<Longrightarrow>
     toggleAnnotationObject fetch k s = (Inr (), s)"
  by (simp add: toggleAnnotationObject_def)

lemma handleSelectStart_hit:
  assumes "primaryAnchor s = Some pa"
      and "\<forall>h'\<in>set pre. hitAnnotation h' = None" and "hitAnnotation h = Some k"
  shows "handleSelectStart fetch (pre @ h # post) tgt s = toggleAnnotationObject fetch k s"
  by (simp add: handleSelectStart_def assms(1) scanHits_first [OF assms(2,3)])

text \<open>
  C3. A select gesture while there is a primary anchor. When no hit carries an
  annotation object, the handler starts the creation workflow with the primary
  anchor and changes nothing else. When \<open>h\<close> is the first hit that carries one,
  object \<open>k\<close>, the scan stops there: the creation workflow is not started, no
  other annotation object changes, and the state of \<open>k\<close> goes from
  \<^verbatim>\<open>"complete"\<close> to \<^verbatim>\<open>"playing"\<close>, from \<^verbatim>\<open>"playing"\<close> to \<^verbatim>\<open>"complete"\<close>, and stays
  what it is otherwise; in that last case the handler returns with the whole
  state as it was.
\<close>

theorem handleSelectStart_first_annotation_hit:
  assumes "primaryAnchor s = Some pa"
  shows "((\<forall>h\<in>set hits. hitAnnotation h = None) \<longrightarrow>
            handleSelectStart fetch hits tgt s =
              (Inr (), s\<lparr>calls := calls s @ [StartCreatingAnnotationObject (Some pa) tgt]\<rparr>)) \<and>
         (\<forall>pre h post k.
            hits = pre @ h # post \<and> (\<forall>h'\<in>set pre. hitAnnotation h' = None) \<and>
            hitAnnotation h = Some k \<longrightarrow>
              creationCalls (snd (handleSelectStart fetch hits tgt s)) = creationCalls s \<and>
              (\<forall>j. j \<noteq> k \<longrightarrow>
                 annotationObjects (snd (handleSelectStart fetch hits tgt s)) j =
                   annotationObjects s j) \<and>
              ao_username (annotationObjects (snd (handleSelectStart fetch hits tgt s)) k) =
                ao_username (annotationObjects s k) \<and>
              ao_state (annotationObjects (snd (handleSelectStart fetch hits tgt s)) k) =
                (if ao_state (annotationObjects s k) = ''complete'' then ''playing''
                 else if ao_state (annotationObjects s k) = ''playing'' then ''complete''
                 else ao_state (annotationObjects s k)) \<and>
              (ao_state (annotationObjects s k) \<noteq> ''complete'' \<and>
               ao_state (annotationObjects s k) \<noteq> ''playing'' \<longrightarrow>
                 handleSelectStart fetch hits tgt s = (Inr (), s)))"
proof (intro conjI impI allI)
  assume "\<forall>h\<in>set hits. hitAnnotation h = None"
  then show "handleSelectStart fetch hits tgt s =
      (Inr (), s\<lparr>calls := calls s @ [StartCreatingAnnotationObject (Some pa) tgt]\<rparr>)"
    by (simp add: handleSelectStart_def assms scanHits_none startCreatingAnnotationObject_def)
next
  fix pre h post k
  assume a: "hits = pre @ h # post \<and> (\<forall>h'\<in>set pre. hitAnnotation h' = None) \<and>
            hitAnnotation h = Some k"
  then have run: "handleSelectStart fetch hits tgt s = toggleAnnotationObject fetch k s"
    using handleSelectStart_hit [OF assms, of pre h k fetch post tgt] by simp
  show "creationCalls (snd (handleSelectStart fetch hits tgt s)) = creationCalls s"
    by (simp add: run toggleAnnotationObject_creationCalls)
  show "annotationObjects (snd (handleSelectStart fetch hits tgt s)) j = annotationObjects s j"
    if "j \<noteq> k" for j
    using that by (simp add: run toggleAnnotationObject_objects)
  show "ao_username (annotationObjects (snd (handleSelectStart fetch hits tgt s)) k) =
          ao_username (annotationObjects s k)"
    by (simp add: run toggleAnnotationObject_objects)
  show "ao_state (annotationObjects (snd (handleSelectStart fetch hits tgt s)) k) =
          (if ao_state (annotationObjects s k) = ''complete'' then ''playing''
           else if ao_state (annotationObjects s k) = ''playing'' then ''complete''
           else ao_state (annotationObjects s k))"
    by (simp add: run toggleAnnotationObject_objects)
  show "handleSelectStart fetch hits tgt s = (Inr (), s)"
    if "ao_state (annotationObjects s k) \<noteq> ''complete'' \<and>
        ao_state (annotationObjects s k) \<noteq> ''playing''"
    using that by (simp add: run toggleAnnotationObject_other)
qed

theorem handleSelectStart_first_annotation_hit_witness:
  "ao_state (annotationObjects (snd (handleSelectStart (Inr [])
      [Hit None, Hit (Some (Object3D None)), Hit (Some (Object3D (Some 3))), Hit (Some (Object3D (Some 4)))]
      None
      ((setPrimaryAnchor 5 False init_app)\<lparr>annotationObjects :=
         (\<lambda>_. \<lparr>ao_username = ''ana'', ao_state = ''complete''\<rparr>)\<rparr>))) 3) = ''playing'' \<and>
   ao_state (annotationObjects (snd (handleSelectStart (Inr [])
      [Hit None, Hit (Some (Object3D None)), Hit (Some (Object3D (Some 3))), Hit (Some (Object3D (Some 4)))]
      None
      ((setPrimaryAnchor 5 False init_app)\<lparr>annotationObjects :=
         (\<lambda>_. \<lparr>ao_username = ''ana'', ao_state = ''complete''\<rparr>)\<rparr>))) 4) = ''complete'' \<and>
   creationCalls (snd (handleSelectStart (Inr [])
      [Hit None, Hit (Some (Object3D None)), Hit (Some (Object3D (Some 3))), Hit (Some (Object3D (Some 4)))]
      None
      ((setPrimaryAnchor 5 False init_app)\<lparr>annotationObjects :=
         (\<lambda>_. \<lparr>ao_username = ''ana'', ao_state = ''complete''\<rparr>)\<rparr>))) = []"
proof -
  let ?s = "(setPrimaryAnchor 5 False init_app)\<lparr>annotationObjects :=
         (\<lambda>_. \<lparr>ao_username = ''ana'', ao_state = ''complete''\<rparr>)\<rparr>"
  let ?hits = "[Hit None, Hit (Some (Object3D None)), Hit (Some (Object3D (Some 3))),
                Hit (Some (Object3D (Some 4)))]"
  have pa: "primaryAnchor ?s = Some 5"
    by (simp add: setPrimaryAnchor_primary)
  have split: "?hits = [Hit None, Hit (Some (Object3D None))] @ Hit (Some (Object3D (Some 3))) #
                 [Hit (Some (Object3D (Some 4)))] \<and>
               (\<forall>h'\<in>set [Hit None, Hit (Some (Object3D None))]. hitAnnotation h' = None) \<and>
               hitAnnotation (Hit (Some (Object3D (Some 3)))) = Some 3"
    by (simp add: hitAnnotation_def)
  have c0: "creationCalls ?s = []"
    by (simp add: creationCalls_def setPrimaryAnchor_calls_trace init_app_def)
  from handleSelectStart_first_annotation_hit [OF pa, of ?hits "Inr []" None] split
  have "creationCalls (snd (handleSelectStart (Inr []) ?hits None ?s)) = creationCalls ?s \<and>
        (\<forall>j. j \<noteq> 3 \<longrightarrow> annotationObjects (snd (handleSelectStart (Inr []) ?hits None ?s)) j =
                   annotationObjects ?s j) \<and>
        ao_state (annotationObjects (snd (handleSelectStart (Inr []) ?hits None ?s)) 3) =
                (if ao_state (annotationObjects ?s 3) = ''complete'' then ''playing''
                 else if ao_state (annotationObjects ?s 3) = ''playing'' then ''complete''
                 else ao_state (annotationObjects ?s 3))"
    by blast
  then show ?thesis
    by (simp add: c0)
qed

text \<open>
  C2, as amended. A select gesture while there is no primary anchor: the
  handler asks the raycaster nothing, changes no annotation object, fetches no
  text and raises nothing of its own; it does start the creation workflow,
  with \<^verbatim>\<open>null\<close> for the anchor.
\<close>

theorem handleSelectStart_no_anchor_starts_creation:
  assumes "primaryAnchor s = None"
  shows "handleSelectStart fetch hits tgt s =
           (Inr (), s\<lparr>calls := calls s @ [StartCreatingAnnotationObject None tgt]\<rparr>)"
  by (simp add: handleSelectStart_def assms startCreatingAnnotationObject_def)

theorem handleSelectStart_no_anchor_starts_creation_witness:
  "handleSelectStart (Inl (Error ''offline'')) [Hit (Some (Object3D (Some 3)))] (Some 2) init_app =
     (Inr (), init_app\<lparr>calls := calls init_app @ [StartCreatingAnnotationObject None (Some 2)]\<rparr>)"
proof -
  have h: "primaryAnchor init_app = None"
    by (simp add: init_app_def)
  show ?thesis
    by (rule handleSelectStart_no_anchor_starts_creation [OF h])
qed

text \<open>
  As the claim was stated (the gesture is ignored), it fails on the start-up
  state: the creation workflow is entered.
\<close>

theorem handleSelectStart_no_anchor_counterexample:
  "primaryAnchor init_app = None \<and>
   handleSelectStart (Inr []) [] None init_app =
     (Inr (), init_app\<lparr>calls := [StartCreatingAnnotationObject None None]\<rparr>) \<and>
   creationCalls (snd (handleSelectStart (Inr []) [] None init_app)) =
     [StartCreatingAnnotationObject None None]"
  by (simp add: handleSelectStart_def startCreatingAnnotationObject_def creationCalls_def
      init_app_def)

text \<open>
  C8, as amended. The first hit that carries an annotation object carries one
  in state \<^verbatim>\<open>"complete"\<close>, the text cache is empty and the bulk fetch rejects
  with \<open>e\<close>. Nothing catches the rejection: it leaves \<^verbatim>\<open>getUserText\<close> and the
  handler rejects with \<open>e\<close>. The object was set to \<^verbatim>\<open>"playing"\<close> before the
  fetch and stays so; nothing is written with \<^verbatim>\<open>console.error\<close>, the toolbar
  text is not touched and the creation workflow is not started.
\<close>

theorem handleSelectStart_fetch_failure_propagates:
  assumes "primaryAnchor s = Some pa"
      and "hits = pre @ h # post" and "\<forall>h'\<in>set pre. hitAnnotation h' = None"
      and "hitAnnotation h = Some k"
      and "ao_state (annotationObjects s k) = ''complete''"
      and "userTextRecords s = []"
  shows "handleSelectStart (Inl e) hits tgt s =
           (Inl e, (setState k ''playing'' s)\<lparr>calls := calls s @ [FetchAllTextFiles]\<rparr>) \<and>
         ao_state (annotationObjects (snd (handleSelectStart (Inl e) hits tgt s)) k) = ''playing'' \<and>
         consoleErrors (snd (handleSelectStart (Inl e) hits tgt s)) = consoleErrors s \<and>
         uiToolbarChildren (snd (handleSelectStart (Inl e) hits tgt s)) = uiToolbarChildren s \<and>
         creationCalls (snd (handleSelectStart (Inl e) hits tgt s)) = creationCalls s"
proof -
  have run: "handleSelectStart (Inl e) hits tgt s = toggleAnnotationObject (Inl e) k s"
    unfolding assms(2) by (rule handleSelectStart_hit [OF assms(1,3,4)])
  have "toggleAnnotationObject (Inl e) k s =
          (Inl e, (setState k ''playing'' s)\<lparr>calls := calls s @ [FetchAllTextFiles]\<rparr>)"
    using assms(5,6)
    by (simp add: toggleAnnotationObject_def getUserText_def updateUserTextRecords_def
        setState_def Let_def)
  with run show ?thesis
    by (simp add: setState_def creationCalls_def)
qed

theorem handleSelectStart_fetch_failure_propagates_witness:
  "handleSelectStart (Inl (Error ''offline'')) [Hit None, Hit (Some (Object3D (Some 0)))] None
     ((setPrimaryAnchor 5 False init_app)\<lparr>annotationObjects :=
        (annotationObjects init_app)(0 := \<lparr>ao_username = ''ana'', ao_state = ''complete''\<rparr>)\<rparr>) =
   (Inl (Error ''offline''),
    (setState 0 ''playing'' ((setPrimaryAnchor 5 False init_app)\<lparr>annotationObjects :=
        (annotationObjects init_app)(0 := \<lparr>ao_username = ''ana'', ao_state = ''complete''\<rparr>)\<rparr>))
     \<lparr>calls := [LoadAnnotationObjects 5, FetchAllTextFiles]\<rparr>)"
proof -
  let ?s = "(setPrimaryAnchor 5 False init_app)\<lparr>annotationObjects :=
        (annotationObjects init_app)(0 := \<lparr>ao_username = ''ana'', ao_state = ''complete''\<rparr>)\<rparr>"
  have 1: "primaryAnchor ?s = Some 5"
    by (simp add: setPrimaryAnchor_primary)
  have 2: "[Hit None, Hit (Some (Object3D (Some 0)))] = [Hit None] @ Hit (Some (Object3D (Some 0))) # []"
    by simp
  have 3: "\<forall>h'\<in>set [Hit None]. hitAnnotation h' = None"
    by (simp add: hitAnnotation_def)
  have 4: "hitAnnotation (Hit (Some (Object3D (Some 0)))) = Some 0"
    by (simp add: hitAnnotation_def)
  have 5: "ao_state (annotationObjects ?s 0) = ''complete''"
    by simp
  have 6: "userTextRecords ?s = []"
    by (simp add: setPrimaryAnchor_def buildAnchorMarker_def loadAnnotationObjects_def
        object_add_def Let_def init_app_def)
  have c: "calls ?s = [LoadAnnotationObjects 5]"
    by (simp add: setPrimaryAnchor_calls_trace init_app_def)
  from handleSelectStart_fetch_failure_propagates [OF 1 2 3 4 5 6, of "Error ''offline''" None]
  show ?thesis
    unfolding c by simp
qed

text \<open>
  As the claim was stated (the failure is logged and does not leave the
  handler), it fails: the handler rejects with the error of the fetch and
  nothing has been logged.
\<close>

theorem handleSelectStart_fetch_failure_counterexample:
  "fst (handleSelectStart (Inl (Error ''offline'')) [Hit (Some (Object3D (Some 0)))] None
     ((setPrimaryAnchor 5 False init_app)\<lparr>annotationObjects :=
        (annotationObjects init_app)(0 := \<lparr>ao_username = ''ana'', ao_state = ''complete''\<rparr>)\<rparr>)) =
     Inl (Error ''offline'') \<and>
   consoleErrors (snd (handleSelectStart (Inl (Error ''offline'')) [Hit (Some (Object3D (Some 0)))] None
     ((setPrimaryAnchor 5 False init_app)\<lparr>annotationObjects :=
        (annotationObjects init_app)(0 := \<lparr>ao_username = ''ana'', ao_state = ''complete''\<rparr>)\<rparr>))) = []"
  by (simp add: handleSelectStart_def toggleAnnotationObject_def getUserText_def
      updateUserTextRecords_def setState_def setPrimaryAnchor_def buildAnchorMarker_def
      loadAnnotationObjects_def object_add_def Let_def init_app_def)

section \<open>Properties of a failed restoration\<close>

text \<open>
  C9. The claim expects a rejected restoration to be logged and thrown on.
  What the callback does when \<^verbatim>\<open>restorePersistentAnchors\<close> returns a promise
  that rejects: the \<^verbatim>\<open>catch\<close> block is not entered, the callback returns
  normally, nothing is written with \<^verbatim>\<open>console.error\<close>, and the rejection stays
  without a handler. The restoration is called once.
\<close>

theorem setupRATK_rejected_restoration_not_caught:
  "(let (r, s') = setupRATK_sessionstart_timeout (RestoreRejects (Error ''restore failed'')) init_app
    in r = Inr () \<and> consoleErrors s' = [] \<and>
       unhandledRejections s' = [Error ''restore failed''] \<and>
       calls s' = [RestorePersistentAnchors])"
  by (simp add: setupRATK_sessionstart_timeout_def init_app_def Let_def)

text \<open>
  The \<^verbatim>\<open>catch\<close> block does its work on an exception thrown by the call itself:
  the message is logged and the exception is thrown on.
\<close>

lemma setupRATK_thrown_restoration_caught:
  "setupRATK_sessionstart_timeout (RestoreThrows (Error m)) s =
     (Inl (Error m),
      s\<lparr>calls := calls s @ [RestorePersistentAnchors],
        consoleErrors := consoleErrors s @ [''error restoring anchors: '' @ m]\<rparr>)"
  by (simp add: setupRATK_sessionstart_timeout_def Let_def)

end
